theory Spec2Isabelle
  imports Complex_Main
begin

section \<open>Floating-point values\<close>

text \<open>
  The notebook \<^verbatim>\<open>docs/usage-spectral-line.ipynb\<close> computes with NumPy \<^verbatim>\<open>float64\<close>
  values. A value is a finite number, one of the two infinities, or not-a-number. The
  special values follow IEEE 754, which is what NumPy does (it warns and returns the
  special value, it does not raise). The sign of zero is outside the model.
\<close>

datatype npfloat = Fin real | PInf | NInf | NaN

text \<open>\<^verbatim>\<open>np.isfinite\<close>\<close>

fun isfinite :: "npfloat \<Rightarrow> bool" where
  "isfinite (Fin _) = True"
| "isfinite _ = False"

text \<open>Negation changes the sign only; it is exact.\<close>

fun np_neg :: "npfloat \<Rightarrow> npfloat" where
  "np_neg (Fin a) = Fin (- a)"
| "np_neg PInf = NInf"
| "np_neg NInf = PInf"
| "np_neg NaN = NaN"

text \<open>
  The comparisons \<^verbatim>\<open>a < b\<close> and \<^verbatim>\<open>a <= b\<close>: false whenever an operand is not a
  number.
\<close>

fun np_less :: "npfloat \<Rightarrow> npfloat \<Rightarrow> bool" where
  "np_less (Fin a) (Fin b) = (a < b)"
| "np_less NaN _ = False"
| "np_less _ NaN = False"
| "np_less NInf NInf = False"
| "np_less NInf _ = True"
| "np_less _ NInf = False"
| "np_less PInf _ = False"
| "np_less _ PInf = True"


subsection \<open>The numbers themselves\<close>

text \<open>
  The sum and the exponential of values as numbers, with no rounding. These are not what
  the notebook's arithmetic computes (that is rounded, see below); the evidence formulas
  of the sampler's specification, which are about the numbers, are stated with them.
\<close>

fun np_add :: "npfloat \<Rightarrow> npfloat \<Rightarrow> npfloat" where
  "np_add (Fin a) (Fin b) = Fin (a + b)"
| "np_add NaN _ = NaN"
| "np_add _ NaN = NaN"
| "np_add PInf NInf = NaN"
| "np_add NInf PInf = NaN"
| "np_add PInf _ = PInf"
| "np_add _ PInf = PInf"
| "np_add NInf _ = NInf"
| "np_add _ NInf = NInf"

fun np_exp :: "npfloat \<Rightarrow> npfloat" where
  "np_exp (Fin a) = Fin (exp a)"
| "np_exp PInf = PInf"
| "np_exp NInf = Fin 0"
| "np_exp NaN = NaN"

subsection \<open>Rounding to float64\<close>

text \<open>
  A \<^verbatim>\<open>float64\<close> has 53 significant bits and an exponent from \<open>-1022\<close> to \<open>1023\<close>.
  Around a positive number \<open>m\<close> the representable numbers are the multiples of
  \<open>ulp m\<close>, which is \<open>2\<close> to the power \<open>e - 52\<close> for \<open>2\<^sup>e \<le> m < 2\<^sup>e\<^sup>+\<^sup>1\<close>; under
  \<open>2\<^sup>-\<^sup>1\<^sup>0\<^sup>2\<^sup>2\<close> (the subnormal numbers) the spacing stays \<open>2\<^sup>-\<^sup>1\<^sup>0\<^sup>7\<^sup>4\<close>.
\<close>

definition binade :: "real \<Rightarrow> int" where
  "binade m = max \<lfloor>log 2 m\<rfloor> (- 1022)"

definition ulp :: "real \<Rightarrow> real" where
  "ulp m = 2 powr of_int (binade m - 52)"

text \<open>The nearest integer, the even one of the two when both are equally near.\<close>

definition nearest_even :: "real \<Rightarrow> int" where
  "nearest_even q =
     (let f = \<lfloor>q\<rfloor>; d = q - of_int f
      in if d < 1 / 2 then f
         else if 1 / 2 < d then f + 1
         else if even f then f else f + 1)"

text \<open>The nearest multiple of \<open>ulp m\<close> to a positive \<open>m\<close>, ties to even.\<close>

definition round_magnitude :: "real \<Rightarrow> real" where
  "round_magnitude m = of_int (nearest_even (m / ulp m)) * ulp m"

text \<open>
  Rounding a real result to \<^verbatim>\<open>float64\<close>, the default mode of IEEE 754 (to nearest, ties
  to even): the magnitude is rounded as if the exponent had no upper limit, and a rounded
  magnitude of \<open>2\<^sup>1\<^sup>0\<^sup>2\<^sup>4\<close> or more overflows to an infinity. A magnitude under half the
  smallest subnormal number rounds to zero.
\<close>

definition round64 :: "real \<Rightarrow> npfloat" where
  "round64 x =
     (if x = 0 then Fin 0
      else let r = round_magnitude \<bar>x\<bar>
           in if 2 ^ 1024 \<le> r then (if 0 < x then PInf else NInf)
              else Fin (sgn x * r))"

subsection \<open>The arithmetic of float64\<close>

text \<open>
  IEEE 754 has \<open>+\<close>, \<open>-\<close>, \<open>*\<close> and \<open>/\<close> return the exact result rounded. The
  elementary functions (\<^verbatim>\<open>np.exp\<close>, \<^verbatim>\<open>np.log10\<close>, \<^verbatim>\<open>10 ** a\<close>) are the C
  library's; they are modelled as the exact result rounded, too.
\<close>

fun f64_add :: "npfloat \<Rightarrow> npfloat \<Rightarrow> npfloat" where
  "f64_add (Fin a) (Fin b) = round64 (a + b)"
| "f64_add NaN _ = NaN"
| "f64_add _ NaN = NaN"
| "f64_add PInf NInf = NaN"
| "f64_add NInf PInf = NaN"
| "f64_add PInf _ = PInf"
| "f64_add _ PInf = PInf"
| "f64_add NInf _ = NInf"
| "f64_add _ NInf = NInf"

definition f64_sub :: "npfloat \<Rightarrow> npfloat \<Rightarrow> npfloat" where
  "f64_sub a b = f64_add a (np_neg b)"

text \<open>The sign of an infinity times a finite factor; infinity times zero is not a number.\<close>

fun inf_times :: "bool \<Rightarrow> real \<Rightarrow> npfloat" where
  "inf_times pos b =
     (if b = 0 then NaN else if (0 < b) = pos then PInf else NInf)"

fun f64_mul :: "npfloat \<Rightarrow> npfloat \<Rightarrow> npfloat" where
  "f64_mul (Fin a) (Fin b) = round64 (a * b)"
| "f64_mul NaN _ = NaN"
| "f64_mul _ NaN = NaN"
| "f64_mul PInf (Fin b) = inf_times True b"
| "f64_mul NInf (Fin b) = inf_times False b"
| "f64_mul (Fin a) PInf = inf_times True a"
| "f64_mul (Fin a) NInf = inf_times False a"
| "f64_mul PInf PInf = PInf"
| "f64_mul NInf NInf = PInf"
| "f64_mul PInf NInf = NInf"
| "f64_mul NInf PInf = NInf"

text \<open>
  Division: a finite nonzero number over zero is an infinity, zero over zero and an
  infinity over an infinity are not numbers, a finite number over an infinity is zero.
\<close>

fun f64_div :: "npfloat \<Rightarrow> npfloat \<Rightarrow> npfloat" where
  "f64_div (Fin a) (Fin b) =
     (if b = 0 then (if a = 0 then NaN else if 0 < a then PInf else NInf)
      else round64 (a / b))"
| "f64_div NaN _ = NaN"
| "f64_div _ NaN = NaN"
| "f64_div (Fin a) PInf = Fin 0"
| "f64_div (Fin a) NInf = Fin 0"
| "f64_div PInf (Fin b) = (if 0 \<le> b then PInf else NInf)"
| "f64_div NInf (Fin b) = (if 0 \<le> b then NInf else PInf)"
| "f64_div PInf _ = NaN"
| "f64_div NInf _ = NaN"

text \<open>\<^verbatim>\<open>a ** 2\<close>\<close>

definition f64_square :: "npfloat \<Rightarrow> npfloat" where
  "f64_square a = f64_mul a a"

text \<open>\<^verbatim>\<open>np.exp\<close>\<close>

fun f64_exp :: "npfloat \<Rightarrow> npfloat" where
  "f64_exp (Fin a) = round64 (exp a)"
| "f64_exp PInf = PInf"
| "f64_exp NInf = Fin 0"
| "f64_exp NaN = NaN"

text \<open>\<^verbatim>\<open>10 ** a\<close>\<close>

fun f64_pow10 :: "npfloat \<Rightarrow> npfloat" where
  "f64_pow10 (Fin a) = round64 (10 powr a)"
| "f64_pow10 PInf = PInf"
| "f64_pow10 NInf = Fin 0"
| "f64_pow10 NaN = NaN"

text \<open>\<^verbatim>\<open>np.log10\<close>\<close>

fun f64_log10 :: "npfloat \<Rightarrow> npfloat" where
  "f64_log10 (Fin a) =
     (if 0 < a then round64 (log 10 a) else if a = 0 then NInf else NaN)"
| "f64_log10 PInf = PInf"
| "f64_log10 NInf = NaN"
| "f64_log10 NaN = NaN"

text \<open>
  \<^verbatim>\<open>a.sum()\<close> of a one-dimensional array, adding from left to right. NumPy adds in
  another order (pairwise, in blocks), which can change the rounding of the sum.
\<close>

definition f64_sum :: "npfloat list \<Rightarrow> npfloat" where
  "f64_sum xs = foldl f64_add (Fin 0) xs"

text \<open>
  \<^verbatim>\<open>scipy.stats.norm.ppf(q, loc, scale)\<close> is SciPy's, not this repository's. Its
  behaviour at and outside the ends of the unit interval is SciPy's documented one. On the
  open interval the value SciPy computes for the quantile of the standard normal
  distribution is a parameter \<open>quantile\<close> of the model. The notebook passes \<open>loc = 0\<close>
  and \<open>scale = 1\<close>, for which the shift and the scaling change nothing.
\<close>

definition norm_ppf :: "(real \<Rightarrow> real) \<Rightarrow> npfloat \<Rightarrow> real \<Rightarrow> real \<Rightarrow> npfloat" where
  "norm_ppf quantile q loc scale =
     (case q of
        Fin p \<Rightarrow>
          if scale \<le> 0 \<or> p < 0 \<or> 1 < p then NaN
          else if p = 0 then NInf
          else if p = 1 then PInf
          else Fin (loc + scale * quantile p)
      | _ \<Rightarrow> NaN)"

section \<open>Arrays on a heap\<close>

text \<open>
  \<^verbatim>\<open>my_prior_transform\<close> copies its argument and assigns to the copy's elements. Whether
  the caller's array is touched depends on which array an assignment writes to, so arrays
  live on a heap: an array is referred to by its address, the index of its contents in the
  heap. Allocation appends to the heap.
\<close>

type_synonym addr = nat
type_synonym heap = "npfloat list list"

datatype error = IndexError | ValueError

text \<open>\<^verbatim>\<open>a.copy()\<close>: a new array with the contents of \<open>a\<close>.\<close>

definition ndarray_copy :: "heap \<Rightarrow> addr \<Rightarrow> heap \<times> addr" where
  "ndarray_copy h a = (h @ [h ! a], length h)"

text \<open>\<^verbatim>\<open>a[i]\<close> for an index \<open>i \<ge> 0\<close>: out of range raises.\<close>

definition getitem :: "heap \<Rightarrow> addr \<Rightarrow> nat \<Rightarrow> error + npfloat" where
  "getitem h a i = (if i < length (h ! a) then Inr (h ! a ! i) else Inl IndexError)"

text \<open>\<^verbatim>\<open>a[i] = v\<close> for an index \<open>i \<ge> 0\<close>: out of range raises and writes nothing.\<close>

definition setitem :: "heap \<Rightarrow> addr \<Rightarrow> nat \<Rightarrow> npfloat \<Rightarrow> error + heap" where
  "setitem h a i v =
     (if i < length (h ! a) then Inr (h[a := (h ! a)[i := v]]) else Inl IndexError)"

section \<open>The prior transform\<close>

text \<open>
  \<^verbatim>\<open>
  def my_prior_transform(cube):
      params = cube.copy()
      lo = 400
      hi = 800
      params[0] = cube[0] * (hi - lo) + lo
      lo = 0.1
      hi = 100
      params[1] = 10**(cube[1] * (np.log10(hi) - np.log10(lo)) + np.log10(lo))
      params[2] = 10**scipy.stats.norm.ppf(cube[2], 0, 1)
      return params
  \<close>
  The model takes the heap and the address of \<open>cube\<close>, and returns the heap after the call
  together with the address of the returned array, or the exception raised. The integers
  400, 800 and 100 are \<^verbatim>\<open>float64\<close> numbers as they are; the literal \<^verbatim>\<open>0.1\<close> is the
  \<^verbatim>\<open>float64\<close> nearest to one tenth.
\<close>

definition my_prior_transform ::
  "(real \<Rightarrow> real) \<Rightarrow> heap \<Rightarrow> addr \<Rightarrow> heap \<times> (error + addr)" where
  "my_prior_transform quantile h cube =
     (let (h0, params) = ndarray_copy h cube;
          lo = 400; hi = 800
      in case getitem h0 cube 0 of Inl e \<Rightarrow> (h0, Inl e) | Inr c0 \<Rightarrow>
        (case setitem h0 params 0 (f64_add (f64_mul c0 (Fin (hi - lo))) (Fin lo)) of
           Inl e \<Rightarrow> (h0, Inl e) | Inr h1 \<Rightarrow>
        (let lo = round64 (1 / 10); hi = Fin 100
         in case getitem h1 cube 1 of Inl e \<Rightarrow> (h1, Inl e) | Inr c1 \<Rightarrow>
           (case setitem h1 params 1
                   (f64_pow10 (f64_add (f64_mul c1 (f64_sub (f64_log10 hi) (f64_log10 lo)))
                                       (f64_log10 lo))) of
              Inl e \<Rightarrow> (h1, Inl e) | Inr h2 \<Rightarrow>
           (case getitem h2 cube 2 of Inl e \<Rightarrow> (h2, Inl e) | Inr c2 \<Rightarrow>
              (case setitem h2 params 2 (f64_pow10 (norm_ppf quantile c2 0 1)) of
                 Inl e \<Rightarrow> (h2, Inl e) | Inr h3 \<Rightarrow> (h3, Inr params)))))))"

text \<open>
  The sampler calls the transform on vectors of the unit cube: three finite numbers, each
  between 0 and 1.
\<close>

definition in_unit_cube :: "npfloat list \<Rightarrow> bool" where
  "in_unit_cube c =
     (length c = 3 \<and>
      list_all (\<lambda>v. case v of Fin r \<Rightarrow> 0 \<le> r \<and> r \<le> 1 | _ \<Rightarrow> False) c)"

text \<open>
  What a call returns for an argument with the contents \<open>c\<close>: the contents of the
  returned array.
\<close>

definition transform_vector :: "(real \<Rightarrow> real) \<Rightarrow> npfloat list \<Rightarrow> error + npfloat list" where
  "transform_vector quantile c =
     (case my_prior_transform quantile [c] 0 of
        (h, Inr p) \<Rightarrow> Inr (h ! p)
      | (h, Inl e) \<Rightarrow> Inl e)"

text \<open>
  A concrete quantile function to evaluate the transform with: the one of the standard
  logistic distribution. Like the normal one it is increasing on the open unit interval.
\<close>

definition logit :: "real \<Rightarrow> real" where
  "logit p = ln (p / (1 - p))"

section \<open>The likelihood\<close>

text \<open>
  \<^verbatim>\<open>
  def my_likelihood(params):
      location, amplitude, width = params
      y_model = amplitude * np.exp(-0.5 * ((x - location)/width)**2)
      like = scipy.stats.norm.logpdf(y, y_model, yerr).sum()
      like = -0.5 * (((y_model - y)/yerr)**2).sum()
      if not np.isfinite(like):
          return -1e100
      return like
  \<close>
  \<open>x\<close>, \<open>y\<close> and \<open>yerr\<close> are globals of the notebook: the wavelengths, the
  measured data (random) and the measurement error. They are arguments here; \<open>x\<close> and
  \<open>y\<close> are arrays of one length. The first assignment to \<open>like\<close> is overwritten by
  the second before it is read, so it is not part of the model. Unpacking \<open>params\<close>
  raises unless it has exactly three elements. \<open>y_model_of\<close> is the array
  \<open>y_model\<close>, and \<open>raw_like\<close> is the value of \<open>like\<close> that the check
  \<^verbatim>\<open>np.isfinite(like)\<close> reads. \<open>floor_value\<close> is the literal \<^verbatim>\<open>-1e100\<close>: the
  \<^verbatim>\<open>float64\<close> nearest to \<open>10\<^sup>1\<^sup>0\<^sup>0\<close>, negated.
\<close>

definition y_model_of :: "npfloat list \<Rightarrow> npfloat \<Rightarrow> npfloat \<Rightarrow> npfloat \<Rightarrow> npfloat list" where
  "y_model_of xs location amplitude width =
     map (\<lambda>x. f64_mul amplitude
                (f64_exp (f64_mul (Fin (- (1 / 2)))
                            (f64_square (f64_div (f64_sub x location) width))))) xs"

definition raw_like :: "npfloat list \<Rightarrow> npfloat list \<Rightarrow> npfloat \<Rightarrow> npfloat" where
  "raw_like y_model ys yerr =
     f64_mul (Fin (- (1 / 2)))
       (f64_sum (map (\<lambda>(m, y). f64_square (f64_div (f64_sub m y) yerr)) (zip y_model ys)))"

definition floor_value :: npfloat where
  "floor_value = np_neg (round64 (10 ^ 100))"

definition my_likelihood ::
  "npfloat list \<Rightarrow> npfloat list \<Rightarrow> npfloat \<Rightarrow> npfloat list \<Rightarrow> error + npfloat" where
  "my_likelihood xs ys yerr params =
     (case params of
        [location, amplitude, width] \<Rightarrow>
          (let y_model = y_model_of xs location amplitude width;
               like = raw_like y_model ys yerr
           in if \<not> isfinite like then Inr floor_value else Inr like)
      | _ \<Rightarrow> Inl ValueError)"

text \<open>
  The sampler is not among the sources, so what it records is a parameter here: a Dead
  Point Sequence is any list of recorded points, each the unit-cube vector \<open>u\<close>, the
  parameter vector \<open>theta\<close> and the value \<open>logl\<close> the sampler holds for the point. The
  notebook hands the sampler \<^verbatim>\<open>my_likelihood\<close> and \<^verbatim>\<open>my_prior_transform\<close>, and the
  sampler's specification has \<open>theta\<close> the transform of \<open>u\<close> and \<open>logl\<close> the
  likelihood of \<open>theta\<close>; \<open>recorded\<close> says that of a point.
\<close>

record recorded_point =
  r_u :: "npfloat list"
  r_theta :: "npfloat list"
  r_logl :: npfloat

definition recorded ::
  "(real \<Rightarrow> real) \<Rightarrow> npfloat list \<Rightarrow> npfloat list \<Rightarrow> npfloat \<Rightarrow> recorded_point \<Rightarrow> bool" where
  "recorded quantile xs ys yerr d =
     (transform_vector quantile (r_u d) = Inr (r_theta d) \<and>
      my_likelihood xs ys yerr (r_theta d) = Inr (r_logl d))"

section \<open>The sampler: evidence accumulation\<close>

text \<open>
  The notebook hands the two functions above to \<^verbatim>\<open>ultranest.ReactiveNestedSampler\<close> and
  calls \<^verbatim>\<open>run\<close>. The sampler itself is not among the sources; the parts of it modelled
  below follow its specification.
\<close>

text \<open>
  Modelled from the spec: the data entity Point (the sampler's point type is missing from
  the sources): a sample in unit-cube space \<open>u\<close>, in physical space \<open>theta\<close>, its
  log-likelihood \<open>logl\<close>, which is a finite number, and its identity.
\<close>

record point =
  u :: "real list"
  theta :: "npfloat list"
  logl :: real
  pid :: nat

text \<open>
  Modelled from the spec: the error of \<^verbatim>\<open>worst()\<close> on an empty population (missing
  from the sources).
\<close>

datatype engine_error = EmptyPopulation

text \<open>
  Modelled from the spec: \<^verbatim>\<open>worst()\<close> of the Live Population Manager (missing from the
  sources): the point with minimum \<open>logl\<close>, an error if the population is empty. Among
  points of equal \<open>logl\<close> it is the earliest in the population's order.
\<close>

definition worst :: "point list \<Rightarrow> engine_error + point" where
  "worst live =
     (case live of
        [] \<Rightarrow> Inl EmptyPopulation
      | p # ps \<Rightarrow> Inr (fold (\<lambda>q m. if logl q < logl m then q else m) ps p))"

text \<open>
  Modelled from the spec: an entry of the Dead Point Sequence (missing from the sources):
  a point removed from the live population, with the prior-volume estimate \<open>log X\<^sub>i\<close> at
  the time of its removal and its weight \<open>log w\<^sub>i\<close>.
\<close>

record dead_point =
  removed :: point
  logX_at :: real
  logw :: real

text \<open>
  Modelled from the spec: the state of the Evidence Accumulator (missing from the
  sources): the current \<open>log X\<close>, the running \<open>log Z\<close>, and the dead points recorded so
  far. \<open>log Z\<close> is a floating-point value: before the first removal the evidence is zero
  and its logarithm is minus infinity.
\<close>

record accumulator =
  logX :: real
  logZ :: npfloat
  dead :: "dead_point list"

text \<open>
  Modelled from the spec: the numerically stable log-sum-exp of two logarithms (the
  sampler's own is missing from the sources): the larger one is taken out of the sum before
  exponentiating, so no exponential overflows. Minus infinity is the logarithm of zero.
\<close>

fun logaddexp :: "npfloat \<Rightarrow> npfloat \<Rightarrow> npfloat" where
  "logaddexp (Fin a) (Fin b) = Fin (max a b + ln (1 + exp (- \<bar>a - b\<bar>)))"
| "logaddexp NaN _ = NaN"
| "logaddexp _ NaN = NaN"
| "logaddexp PInf _ = PInf"
| "logaddexp _ PInf = PInf"
| "logaddexp NInf b = b"
| "logaddexp a NInf = a"

text \<open>
  Modelled from the spec: the Evidence Accumulator's update at the replacement of the
  worst live point (missing from the sources). \<open>live\<close> is the live population at the time
  of the removal, and \<open>N\<close> is its size then:
  \<open>log X\<^sub>i = log X\<^sub>i\<^sub>-\<^sub>1 - 1/N\<close>,
  \<open>log w\<^sub>i = log X\<^sub>i\<^sub>-\<^sub>1 - log X\<^sub>i + logl\<close> of the removed point, and \<open>log Z\<close>
  accumulates \<open>w\<^sub>i\<close> by log-sum-exp.
\<close>

definition record_removal :: "point list \<Rightarrow> accumulator \<Rightarrow> engine_error + accumulator" where
  "record_removal live acc =
     (case worst live of
        Inl e \<Rightarrow> Inl e
      | Inr p \<Rightarrow>
          (let N = length live;
               logX_i = logX acc - 1 / real N;
               logw_i = logX acc - logX_i + logl p
           in Inr (acc\<lparr>logX := logX_i,
                        logZ := logaddexp (logZ acc) (Fin logw_i),
                        dead := dead acc @ [\<lparr>removed = p, logX_at = logX_i, logw = logw_i\<rparr>]\<rparr>)))"

text \<open>
  Modelled from the spec: a run of removals (the sampler's loop is missing from the
  sources). The history lists the live population as it was at each removal; its size may
  differ from one removal to the next.
\<close>

fun replay :: "point list list \<Rightarrow> accumulator \<Rightarrow> engine_error + accumulator" where
  "replay [] acc = Inr acc"
| "replay (live # history) acc =
     (case record_removal live acc of
        Inl e \<Rightarrow> Inl e
      | Inr acc' \<Rightarrow> replay history acc')"

section \<open>The sampler: the region proposer\<close>

text \<open>
  Modelled from the spec: the Region Proposer's parameters (the proposer is missing from
  the sources, and its specification leaves the region's geometry to the implementer): how
  a region \<open>'r\<close> is fitted around the live points, its volume, how a candidate of the unit
  cube is drawn from it with the random generator's state \<open>'g\<close>, the volume at or under
  which the region counts as degenerate, and the maximum-rejection budget.
\<close>

record ('r, 'g) proposer =
  fit_region :: "point list \<Rightarrow> 'r"
  region_volume :: "'r \<Rightarrow> real"
  draw_candidate :: "'r \<Rightarrow> 'g \<Rightarrow> real list \<times> 'g"
  min_volume :: real
  max_rejections :: nat

text \<open>
  Modelled from the spec: what the Region Proposer returns (missing from the sources): an
  accepted candidate with its log-likelihood, the failure signal of an exhausted budget,
  or the terminal condition of a degenerate region. The first two carry the generator's
  state after the draws and the number of candidates rejected.
\<close>

datatype 'g proposal =
  Accepted "real list" real 'g nat
| BudgetExhausted 'g nat
| DegenerateRegion

text \<open>
  Modelled from the spec: the rejection loop of the Region Proposer (missing from the
  sources): draw a candidate from the region, reject it if its log-likelihood does not
  exceed \<open>L_min\<close>, repeat until a candidate is accepted or the maximum-rejection budget is
  exhausted. \<open>logl_of\<close> is the log-likelihood of the transformed candidate;
  \<open>rejected\<close> counts the candidates rejected so far.
\<close>

function rejection_loop ::
  "('r, 'g) proposer \<Rightarrow> (real list \<Rightarrow> real) \<Rightarrow> 'r \<Rightarrow> npfloat \<Rightarrow> 'g \<Rightarrow> nat \<Rightarrow> 'g proposal" where
  "rejection_loop P logl_of region L_min g rejected =
     (if max_rejections P \<le> rejected then BudgetExhausted g rejected
      else (case draw_candidate P region g of
              (cand, g') \<Rightarrow>
                if np_less L_min (Fin (logl_of cand))
                then Accepted cand (logl_of cand) g' rejected
                else rejection_loop P logl_of region L_min g' (Suc rejected)))"
  by pat_completeness auto
termination
  by (relation "measure (\<lambda>(P, logl_of, region, L_min, g, rejected). max_rejections P - rejected)")
    auto

declare rejection_loop.simps [simp del]

text \<open>
  Modelled from the spec: the Region Proposer (missing from the sources): fit the region
  around the current live population; if it has degenerated to zero or near-zero volume
  report that, otherwise run the rejection loop.
\<close>

definition propose ::
  "('r, 'g) proposer \<Rightarrow> (real list \<Rightarrow> real) \<Rightarrow> point list \<Rightarrow> npfloat \<Rightarrow> 'g \<Rightarrow> 'g proposal" where
  "propose P logl_of live L_min g =
     (let region = fit_region P live
      in if region_volume P region \<le> min_volume P then DegenerateRegion
         else rejection_loop P logl_of region L_min g 0)"

text \<open>
  The sequence of draws the loop makes from a region, to state what the loop returns:
  the generator's state after \<open>k\<close> draws, the \<open>k\<close>-th candidate (counted from 0), and
  that the first \<open>n\<close> candidates are all rejected.
\<close>

fun generator_after :: "('r, 'g) proposer \<Rightarrow> 'r \<Rightarrow> 'g \<Rightarrow> nat \<Rightarrow> 'g" where
  "generator_after P region g 0 = g"
| "generator_after P region g (Suc k) =
     snd (draw_candidate P region (generator_after P region g k))"

definition candidate_at :: "('r, 'g) proposer \<Rightarrow> 'r \<Rightarrow> 'g \<Rightarrow> nat \<Rightarrow> real list" where
  "candidate_at P region g k = fst (draw_candidate P region (generator_after P region g k))"

definition all_rejected ::
  "('r, 'g) proposer \<Rightarrow> (real list \<Rightarrow> real) \<Rightarrow> 'r \<Rightarrow> npfloat \<Rightarrow> 'g \<Rightarrow> nat \<Rightarrow> bool" where
  "all_rejected P logl_of region L_min g n =
     (\<forall>k<n. \<not> np_less L_min (Fin (logl_of (candidate_at P region g k))))"

text \<open>
  A proposer to evaluate the loop with, for one dimension: the region is the interval
  spanned by the live points' coordinates, widened by a tenth of its width on each side;
  the generator's state is a counter.
\<close>

definition interval_proposer :: "(real \<times> real, nat) proposer" where
  "interval_proposer =
     \<lparr>fit_region = (\<lambda>live.
        let xs = map (\<lambda>p. hd (u p)) live;
            lo = fold min xs (hd xs); hi = fold max xs (hd xs);
            w = (hi - lo) / 10
        in (lo - w, hi + w)),
      region_volume = (\<lambda>(lo, hi). hi - lo),
      draw_candidate = (\<lambda>(lo, hi) g. ([lo + (hi - lo) / real (g + 2)], Suc g)),
      min_volume = 1 / 1000,
      max_rejections = 3\<rparr>"

section \<open>Properties of rounding\<close>

lemma nearest_even_of_int [simp]: "nearest_even (of_int n) = n"
  by (simp add: nearest_even_def)

lemma nearest_even_numeral [simp]: "nearest_even (numeral n) = numeral n"
  using nearest_even_of_int [of "numeral n"] by simp




text \<open>A number within less than a half of an integer rounds to it.\<close>

lemma nearest_even_close:
  assumes "\<bar>q - of_int n\<bar> < 1 / 2"
  shows "nearest_even q = n"
proof (cases "of_int n \<le> q")
  case True
  with assms have f: "\<lfloor>q\<rfloor> = n" by (intro floor_unique) (auto simp add: abs_if split: if_splits)
  then show ?thesis using assms True by (simp add: nearest_even_def Let_def abs_if)
next
  case False
  with assms have f: "\<lfloor>q\<rfloor> = n - 1"
    by (intro floor_unique) (auto simp add: abs_if split: if_splits)
  then show ?thesis using assms False by (simp add: nearest_even_def Let_def abs_if)
qed

lemma binade_eq:
  assumes "0 < m" and "2 powr of_int e \<le> m" and "m < 2 powr of_int (e + 1)" and "- 1022 \<le> e"
  shows "binade m = e"
proof -
  have "\<lfloor>log 2 m\<rfloor> = e"
    using assms by (simp add: floor_log_eq_powr_iff add.commute)
  with assms(4) show ?thesis by (simp add: binade_def)
qed












lemma round64_pos:
  "0 < x \<Longrightarrow> round64 x =
     (if 2 ^ 1024 \<le> round_magnitude x then PInf else Fin (round_magnitude x))"
  by (simp add: round64_def Let_def)

lemma round64_neg:
  "x < 0 \<Longrightarrow> round64 x =
     (if 2 ^ 1024 \<le> round_magnitude (- x) then NInf else Fin (- round_magnitude (- x)))"
  by (simp add: round64_def Let_def)

lemma round64_zero [simp]: "round64 0 = Fin 0"
  by (simp add: round64_def)



text \<open>Rounding a number whose binade is known.\<close>

lemma round_magnitude_eval:
  assumes "2 powr of_int e \<le> m" and "m < 2 powr of_int (e + 1)" and "- 1022 \<le> e"
  shows "round_magnitude m =
     of_int (nearest_even (m / 2 powr of_int (e - 52))) * 2 powr of_int (e - 52)"
proof -
  have "0 < m" using assms(1) by (smt (verit) powr_gt_zero)
  then have "binade m = e" using assms by (intro binade_eq)
  then show ?thesis by (simp add: round_magnitude_def ulp_def)
qed

text \<open>The constants of the notebook that are floats as they are, and the literal 0.1.\<close>

lemma round64_2: "round64 2 = Fin 2"
proof -
  have "round_magnitude 2 =
      of_int (nearest_even (2 / 2 powr of_int (1 - 52))) * 2 powr of_int (1 - 52)"
    by (rule round_magnitude_eval) simp_all
  also have "\<dots> = 2" by (simp add: powr_neg_numeral)
  finally show ?thesis by (simp add: round64_pos)
qed

lemma round64_3: "round64 3 = Fin 3"
proof -
  have "round_magnitude 3 =
      of_int (nearest_even (3 / 2 powr of_int (1 - 52))) * 2 powr of_int (1 - 52)"
    by (rule round_magnitude_eval) simp_all
  also have "\<dots> = 3" by (simp add: powr_neg_numeral)
  finally show ?thesis by (simp add: round64_pos)
qed


lemma round64_100: "round64 100 = Fin 100"
proof -
  have "round_magnitude 100 =
      of_int (nearest_even (100 / 2 powr of_int (6 - 52))) * 2 powr of_int (6 - 52)"
    by (rule round_magnitude_eval) simp_all
  also have "\<dots> = 100" by (simp add: powr_neg_numeral)
  finally show ?thesis by (simp add: round64_pos)
qed



lemma round64_tenth: "round64 (1 / 10) = Fin (3602879701896397 / 2 ^ 55)"
proof -
  have "round_magnitude (1 / 10) =
      of_int (nearest_even ((1 / 10) / 2 powr of_int (- 4 - 52))) * 2 powr of_int (- 4 - 52)"
    by (rule round_magnitude_eval) (simp_all add: powr_neg_numeral)
  also have "\<dots> = 3602879701896397 / 2 ^ 55"
    by (simp add: powr_neg_numeral nearest_even_def Let_def)
  finally show ?thesis by (simp add: round64_pos)
qed

text \<open>The literal \<^verbatim>\<open>1e100\<close>.\<close>

lemma round64_1e100: "round64 (10 ^ 100) = Fin (5147557589468029 * 2 ^ 280)"
proof -
  have "round_magnitude (10 ^ 100) =
      of_int (nearest_even (10 ^ 100 / 2 powr of_int (332 - 52))) * 2 powr of_int (332 - 52)"
    by (rule round_magnitude_eval) simp_all
  also have "\<dots> = 5147557589468029 * 2 ^ 280"
    by (simp add: nearest_even_def Let_def)
  finally show ?thesis by (simp add: round64_pos)
qed

text \<open>The two logarithms the transform takes: of 100 and of the literal 0.1.\<close>

lemma ln_10_ge_2: "2 \<le> ln (10::real)"
proof -
  have "exp (2::real) = exp 1 * exp 1" by (simp add: exp_add [symmetric])
  also have "\<dots> \<le> 3 * 3" using exp_le by (intro mult_mono) auto
  finally have "exp (2::real) \<le> 10" by simp
  then show ?thesis by (simp add: ln_ge_iff)
qed

lemma f64_log10_100: "f64_log10 (Fin 100) = Fin 2"
proof -
  have "log 10 ((10::real) powr 2) = 2" by (simp only: log_powr_cancel)
  then have "log 10 100 = (2::real)" by simp
  then show ?thesis by (simp add: round64_2)
qed

lemma log10_one_plus:
  assumes t: "0 < (t::real)"
  shows "0 < log 10 (1 + t)" and "log 10 (1 + t) \<le> t / 2"
proof -
  have p: "0 < ln (1 + t)" using t by (intro ln_gt_zero) simp
  have ln10: "0 < ln (10::real)" by simp
  show "0 < log 10 (1 + t)" using p ln10 by (simp add: log_def)
  have "ln (1 + t) \<le> t" using t by (intro ln_add_one_self_le_self) simp
  then have "ln (1 + t) / ln 10 \<le> t / 2"
    using p ln_10_ge_2 by (intro frac_le) simp_all
  then show "log 10 (1 + t) \<le> t / 2" by (simp add: log_def)
qed

text \<open>The common logarithm of the float nearest to one tenth rounds to \<open>-1\<close>.\<close>

lemma log10_tenth_bounds:
  "- 1 < log 10 (3602879701896397 / 2 ^ 55 :: real)"
  "log 10 (3602879701896397 / 2 ^ 55 :: real) \<le> - 1 + 1 / 2 ^ 55"
proof -
  let ?x = "3602879701896397 / 2 ^ 55 :: real"
  define t :: real where "t = 1 / 2 ^ 54"
  have t: "0 < t" by (simp add: t_def)
  have x: "?x = (1 / 10) * (1 + t)" by (simp add: t_def)
  have "log 10 ?x = log 10 (1 / 10) + log 10 (1 + t)"
    unfolding x using t by (intro log_mult_pos) simp_all
  also have "log 10 (1 / 10 :: real) = - 1" by (simp add: log_divide)
  finally have l: "log 10 ?x = - 1 + log 10 (1 + t)" .
  show "- 1 < log 10 ?x" unfolding l using log10_one_plus(1) [OF t] by simp
  have "t / 2 = 1 / 2 ^ 55" by (simp add: t_def)
  then show "log 10 ?x \<le> - 1 + 1 / 2 ^ 55"
    unfolding l using log10_one_plus(2) [OF t] by simp
qed

lemma f64_log10_tenth: "f64_log10 (round64 (1 / 10)) = Fin (- 1)"
proof -
  let ?v = "log 10 (3602879701896397 / 2 ^ 55 :: real)"
  note b = log10_tenth_bounds
  have neg: "?v < 0" using b(2) by simp
  have m1: "2 powr of_int (- 1) \<le> - ?v" using b(2) by (simp add: powr_neg_numeral powr_minus_divide)
  have m2: "- ?v < 2 powr of_int (- 1 + 1)" using b(1) by simp
  have "round_magnitude (- ?v) =
      of_int (nearest_even (- ?v / 2 powr of_int (- 1 - 52))) * 2 powr of_int (- 1 - 52)"
    by (rule round_magnitude_eval [OF m1 m2]) simp
  also have "nearest_even (- ?v / 2 powr of_int (- 1 - 52)) = 2 ^ 53"
  proof (rule nearest_even_close)
    have e: "- ?v / 2 powr of_int (- 1 - 52) = - ?v * 2 ^ 53" by (simp add: powr_neg_numeral)
    have "- ?v * 2 ^ 53 \<le> 2 ^ 53" using b(1) by simp
    moreover have "2 ^ 53 - 1 / 4 \<le> - ?v * 2 ^ 53" using b(2) by simp
    ultimately show "\<bar>- ?v / 2 powr of_int (- 1 - 52) - of_int (2 ^ 53)\<bar> < 1 / 2"
      unfolding e by simp
  qed
  finally have "round_magnitude (- ?v) = 1" by (simp add: powr_neg_numeral)
  then have "round64 ?v = Fin (- 1)" using neg by (simp add: round64_neg)
  then show ?thesis by (simp add: round64_tenth)
qed

lemma log10_difference: "f64_sub (f64_log10 (Fin 100)) (f64_log10 (round64 (1 / 10))) = Fin 3"
  unfolding f64_log10_100 f64_log10_tenth by (simp add: f64_sub_def round64_3)

section \<open>Properties of the prior transform\<close>

lemma length3: "length c = 3 \<Longrightarrow> \<exists>c0 c1 c2. c = [c0, c1, c2]"
  by (cases c; simp; rename_tac a as; case_tac as; simp; rename_tac b bs; case_tac bs; simp)

text \<open>What the call does on a vector of three elements: one allocation, three writes to it.\<close>

lemma my_prior_transform_eval:
  assumes "cube < length h" and "h ! cube = [c0, c1, c2]"
  shows "my_prior_transform q h cube =
     (h @ [[f64_add (f64_mul c0 (Fin 400)) (Fin 400),
            f64_pow10 (f64_add (f64_mul c1 (Fin 3)) (Fin (- 1))),
            f64_pow10 (norm_ppf q c2 0 1)]], Inr (length h))"
  using assms
  by (simp add: my_prior_transform_def ndarray_copy_def getitem_def setitem_def nth_append
      Let_def f64_log10_100 f64_log10_tenth f64_sub_def round64_3 del: f64_log10.simps)

text \<open>
  Whatever the argument holds, also when an index is out of range and the call raises, the
  arrays that existed before the call are as they were.
\<close>

lemma my_prior_transform_frame:
  "cube < length h \<Longrightarrow> take (length h) (fst (my_prior_transform q h cube)) = h"
  by (auto simp add: my_prior_transform_def ndarray_copy_def getitem_def setitem_def
      nth_append Let_def split: sum.splits if_splits)

text \<open>
  Claim C9. For every vector \<open>cube\<close> of the unit cube, the call returns a new array (its
  address is the first free one) and every array that existed before the call, \<open>cube\<close>
  among them, has the contents it had: the assignments go to the copy.
\<close>

theorem my_prior_transform_leaves_cube:
  assumes "cube < length h" and "in_unit_cube (h ! cube)"
  shows "\<exists>h'. my_prior_transform quantile h cube = (h', Inr (length h)) \<and>
           length h' = Suc (length h) \<and> take (length h) h' = h \<and> h' ! cube = h ! cube"
proof -
  from assms(2) have "length (h ! cube) = 3" by (simp add: in_unit_cube_def)
  then obtain c0 c1 c2 where c: "h ! cube = [c0, c1, c2]" using length3 by blast
  show ?thesis
    using assms(1) by (simp add: my_prior_transform_eval [OF assms(1) c] nth_append)
qed

theorem my_prior_transform_leaves_cube_witness:
  "(0::nat) < length [[Fin 0, Fin (1 / 2), Fin 1]] \<and>
   in_unit_cube ([[Fin 0, Fin (1 / 2), Fin 1]] ! 0) \<and>
   (\<exists>h'. my_prior_transform (\<lambda>p. p) [[Fin 0, Fin (1 / 2), Fin 1]] 0 = (h', Inr 1) \<and>
      length h' = 2 \<and> h' ! 0 = [Fin 0, Fin (1 / 2), Fin 1])"
  using my_prior_transform_leaves_cube [of 0 "[[Fin 0, Fin (1 / 2), Fin 1]]" "\<lambda>p. p"]
  by (auto simp add: in_unit_cube_def)




















section \<open>Properties of the likelihood\<close>

text \<open>The value of the literal \<^verbatim>\<open>-1e100\<close>.\<close>

lemma floor_value_eq: "floor_value = Fin (- (5147557589468029 * 2 ^ 280))"
  unfolding floor_value_def round64_1e100 by simp

lemma my_likelihood_returns_finite:
  "my_likelihood xs ys yerr params = Inr v \<Longrightarrow> isfinite v"
  by (auto simp add: my_likelihood_def Let_def floor_value_eq
      split: list.splits if_splits)

lemma transform_vector_eval:
  "transform_vector q [c0, c1, c2] =
     Inr [f64_add (f64_mul c0 (Fin 400)) (Fin 400),
          f64_pow10 (f64_add (f64_mul c1 (Fin 3)) (Fin (- 1))),
          f64_pow10 (norm_ppf q c2 0 1)]"
  using my_prior_transform_eval [of 0 "[[c0, c1, c2]]" c0 c1 c2 q]
  by (simp add: transform_vector_def)

text \<open>
  Claim C2. Take any Dead Point Sequence whose points the sampler recorded from the
  notebook's two functions. The \<open>logl\<close> of every entry is a finite number. A point can be
  recorded for every vector of three elements: the likelihood returns for every vector of
  three parameters, and every value it returns is finite. When the computed \<open>like\<close> is
  NaN or an infinity, the value returned is the constant \<^verbatim>\<open>-1e100\<close>, the float
  \<open>-5147557589468029 \<times> 2\<^sup>2\<^sup>8\<^sup>0\<close>, which is below \<open>-10\<^sup>9\<^sup>9\<close>; when it is finite, it is
  returned as it is.
\<close>

theorem my_likelihood_finite:
  "(list_all (recorded quantile xs ys yerr) dead_sequence \<longrightarrow>
      list_all (\<lambda>d. isfinite (r_logl d)) dead_sequence) \<and>
   (length cube = 3 \<longrightarrow>
      (\<exists>theta logl. recorded quantile xs ys yerr \<lparr>r_u = cube, r_theta = theta, r_logl = logl\<rparr>)) \<and>
   (\<forall>v. my_likelihood xs ys yerr params = Inr v \<longrightarrow> isfinite v) \<and>
   (length params = 3 \<longrightarrow> (\<exists>v. my_likelihood xs ys yerr params = Inr v)) \<and>
   (params = [location, amplitude, width] \<and>
      \<not> isfinite (raw_like (y_model_of xs location amplitude width) ys yerr) \<longrightarrow>
      my_likelihood xs ys yerr params = Inr floor_value) \<and>
   (params = [location, amplitude, width] \<and>
      isfinite (raw_like (y_model_of xs location amplitude width) ys yerr) \<longrightarrow>
      my_likelihood xs ys yerr params =
        Inr (raw_like (y_model_of xs location amplitude width) ys yerr)) \<and>
   floor_value = Fin (- (5147557589468029 * 2 ^ 280)) \<and>
   - (5147557589468029 * 2 ^ 280) < (- (10 ^ 99) :: real)"
proof -
  have dead: "list_all (\<lambda>d. isfinite (r_logl d)) dead_sequence"
    if "list_all (recorded quantile xs ys yerr) dead_sequence"
    using that
    by (induction dead_sequence) (auto simp add: recorded_def dest: my_likelihood_returns_finite)
  have ret: "\<exists>v. my_likelihood xs ys yerr p = Inr v" if len: "length p = 3" for p
  proof -
    obtain a b c where "p = [a, b, c]" using len length3 by blast
    then show ?thesis by (simp add: my_likelihood_def Let_def)
  qed
  have rec: "\<exists>theta logl. recorded quantile xs ys yerr \<lparr>r_u = cube, r_theta = theta, r_logl = logl\<rparr>"
    if len: "length cube = 3"
  proof -
    obtain c0 c1 c2 where c: "cube = [c0, c1, c2]" using len length3 by blast
    obtain theta where t: "transform_vector quantile cube = Inr theta" "length theta = 3"
      unfolding c by (simp add: transform_vector_eval)
    obtain v where "my_likelihood xs ys yerr theta = Inr v" using ret [OF t(2)] by blast
    with t(1) show ?thesis by (auto simp add: recorded_def)
  qed
  have fin: "isfinite v" if "my_likelihood xs ys yerr params = Inr v" for v
    using that by (rule my_likelihood_returns_finite)
  have sub: "my_likelihood xs ys yerr params = Inr floor_value"
    if "params = [location, amplitude, width]"
      "\<not> isfinite (raw_like (y_model_of xs location amplitude width) ys yerr)"
    using that by (simp add: my_likelihood_def Let_def)
  have keep: "my_likelihood xs ys yerr params =
        Inr (raw_like (y_model_of xs location amplitude width) ys yerr)"
    if "params = [location, amplitude, width]"
      "isfinite (raw_like (y_model_of xs location amplitude width) ys yerr)"
    using that by (simp add: my_likelihood_def Let_def)
  have fl: "floor_value = Fin (- (5147557589468029 * 2 ^ 280))"
    by (rule floor_value_eq)
  have neg: "- (5147557589468029 * 2 ^ 280) < (- (10 ^ 99) :: real)" by simp
  show ?thesis
    using dead rec fin ret [of params] sub keep fl neg by blast
qed

text \<open>
  The \<open>logl\<close> of a recorded point is a number: the specification's Point, whose
  \<open>logl\<close> is a real number, can hold it.
\<close>

lemma recorded_logl_is_number:
  "recorded quantile xs ys yerr d \<Longrightarrow> \<exists>l. r_logl d = Fin l"
  using my_likelihood_returns_finite [of xs ys yerr "r_theta d" "r_logl d"]
  by (cases "r_logl d") (simp_all add: recorded_def)

text \<open>
  A line of width zero, which the transform returns at \<open>cube[2] = 0\<close>: at the data point
  on the line's location the model divides zero by zero.
\<close>

lemma raw_like_zero_width:
  "raw_like (y_model_of [Fin 500] (Fin 500) (Fin 100) (Fin 0)) [Fin 20] (Fin 1) = NaN"
  by (simp add: raw_like_def y_model_of_def f64_sum_def f64_sub_def f64_square_def)

text \<open>
  The point at the unit-cube vector \<open>(1/4, 1, 0)\<close>: location 500, amplitude 100 and width
  zero.
\<close>

lemma round64_500: "round64 500 = Fin 500"
proof -
  have "round_magnitude 500 =
      of_int (nearest_even (500 / 2 powr of_int (8 - 52))) * 2 powr of_int (8 - 52)"
    by (rule round_magnitude_eval) simp_all
  also have "\<dots> = 500" by (simp add: powr_neg_numeral)
  finally show ?thesis by (simp add: round64_pos)
qed

lemma transform_at_zero_width:
  "transform_vector q [Fin (1 / 4), Fin 1, Fin 0] = Inr [Fin 500, Fin 100, Fin 0]"
  by (simp add: transform_vector_eval round64_100 round64_500 round64_3 round64_2 norm_ppf_def)

theorem my_likelihood_finite_witness:
  "list_all (recorded logit [Fin 500] [Fin 20] (Fin 1))
     [\<lparr>r_u = [Fin (1 / 4), Fin 1, Fin 0], r_theta = [Fin 500, Fin 100, Fin 0],
       r_logl = floor_value\<rparr>] \<and>
   \<not> isfinite (raw_like (y_model_of [Fin 500] (Fin 500) (Fin 100) (Fin 0)) [Fin 20] (Fin 1)) \<and>
   my_likelihood [Fin 500] [Fin 20] (Fin 1) [Fin 500, Fin 100, Fin 0] = Inr floor_value \<and>
   list_all (\<lambda>d. isfinite (r_logl d))
     [\<lparr>r_u = [Fin (1 / 4), Fin 1, Fin 0], r_theta = [Fin 500, Fin 100, Fin 0],
       r_logl = floor_value\<rparr>] \<and>
   floor_value = Fin (- (5147557589468029 * 2 ^ 280))"
proof -
  note t = my_likelihood_finite [of logit "[Fin 500]" "[Fin 20]" "Fin 1"
      "[\<lparr>r_u = [Fin (1 / 4), Fin 1, Fin 0], r_theta = [Fin 500, Fin 100, Fin 0],
         r_logl = floor_value\<rparr>]"
      "[Fin (1 / 4), Fin 1, Fin 0]" "[Fin 500, Fin 100, Fin 0]" "Fin 500" "Fin 100" "Fin 0"]
  have n: "\<not> isfinite (raw_like (y_model_of [Fin 500] (Fin 500) (Fin 100) (Fin 0))
      [Fin 20] (Fin 1))"
    by (simp add: raw_like_zero_width)
  from t n have l: "my_likelihood [Fin 500] [Fin 20] (Fin 1) [Fin 500, Fin 100, Fin 0] =
      Inr floor_value" by blast
  have r: "list_all (recorded logit [Fin 500] [Fin 20] (Fin 1))
     [\<lparr>r_u = [Fin (1 / 4), Fin 1, Fin 0], r_theta = [Fin 500, Fin 100, Fin 0],
       r_logl = floor_value\<rparr>]"
    using l by (simp add: recorded_def transform_at_zero_width)
  from t r have f: "list_all (\<lambda>d. isfinite (r_logl d))
     [\<lparr>r_u = [Fin (1 / 4), Fin 1, Fin 0], r_theta = [Fin 500, Fin 100, Fin 0],
       r_logl = floor_value\<rparr>]" by blast
  from t have v: "floor_value = Fin (- (5147557589468029 * 2 ^ 280))" by blast
  show ?thesis using r n l f v by blast
qed

section \<open>Properties of the evidence accumulation\<close>

lemma logaddexp_exp: "exp (max a b + ln (1 + exp (- \<bar>a - b\<bar>))) = exp a + exp (b::real)"
proof -
  have pos: "0 < 1 + exp (- \<bar>a - b\<bar>)" by (simp add: add_pos_pos)
  show ?thesis
  proof (cases "a \<le> b")
    case True
    then have "exp (max a b + ln (1 + exp (- \<bar>a - b\<bar>))) = exp b * (1 + exp (a - b))"
      using pos by (simp add: exp_add max_def abs_if)
    also have "\<dots> = exp b + exp b * exp (a - b)" by (simp add: algebra_simps)
    also have "exp b * exp (a - b) = exp a" by (simp add: exp_add [symmetric])
    finally show ?thesis by simp
  next
    case False
    then have "exp (max a b + ln (1 + exp (- \<bar>a - b\<bar>))) = exp a * (1 + exp (b - a))"
      using pos by (simp add: exp_add max_def abs_if)
    also have "\<dots> = exp a + exp a * exp (b - a)" by (simp add: algebra_simps)
    also have "exp a * exp (b - a) = exp b" by (simp add: exp_add [symmetric])
    finally show ?thesis by simp
  qed
qed

text \<open>The exponential of the log-sum-exp is the sum of the exponentials.\<close>

lemma np_exp_logaddexp:
  assumes "z = NInf \<or> (\<exists>r. z = Fin r)"
  shows "np_exp (logaddexp z (Fin w)) = np_add (np_exp z) (Fin (exp w))"
  using assms by (auto simp add: logaddexp_exp)

lemma logaddexp_stays_log:
  assumes "z = NInf \<or> (\<exists>r. z = Fin r)"
  shows "logaddexp z (Fin w) = NInf \<or> (\<exists>r. logaddexp z (Fin w) = Fin r)"
  using assms by auto

lemma np_exp_of_log: "z = NInf \<or> (\<exists>r. z = Fin r) \<Longrightarrow> \<exists>e. np_exp z = Fin e"
  by auto

lemma worst_nonempty: "live \<noteq> [] \<Longrightarrow> \<exists>p. worst live = Inr p"
  by (cases live) (simp_all add: worst_def)

lemma fold_min_in: "fold (\<lambda>q m. if logl q < logl m then q else m) ps p \<in> set (p # ps)"
  by (induction ps arbitrary: p) auto

lemma fold_min_le_init:
  "logl (fold (\<lambda>q m. if logl q < logl m then q else m) ps p) \<le> logl (p::point)"
proof (induction ps arbitrary: p)
  case Nil
  then show ?case by simp
next
  case (Cons a ps)
  show ?case
    using Cons.IH [of "if logl a < logl p then a else p"] by (simp split: if_splits)
qed

lemma fold_min_le:
  "q \<in> set ps \<Longrightarrow>
   logl (fold (\<lambda>q m. if logl q < logl m then q else m) ps p) \<le> logl (q::point)"
proof (induction ps arbitrary: p)
  case Nil
  then show ?case by simp
next
  case (Cons a ps)
  show ?case
  proof (cases "q = a")
    case True
    then show ?thesis
      using fold_min_le_init [of ps "if logl a < logl p then a else p"]
      by (simp split: if_splits)
  next
    case False
    with Cons.prems have "q \<in> set ps" by simp
    then show ?thesis using Cons.IH by simp
  qed
qed

text \<open>\<open>worst\<close> returns a member of the population, and none has a smaller \<open>logl\<close>.\<close>

lemma worst_is_min:
  assumes "worst live = Inr p"
  shows "p \<in> set live \<and> (\<forall>q\<in>set live. logl p \<le> logl q)"
proof (cases live)
  case Nil
  with assms show ?thesis by (simp add: worst_def)
next
  case (Cons a ps)
  with assms have p: "p = fold (\<lambda>q m. if logl q < logl m then q else m) ps a"
    by (simp add: worst_def)
  have "p \<in> set (a # ps)" unfolding p by (rule fold_min_in)
  moreover have "logl p \<le> logl q" if "q \<in> set (a # ps)" for q
    using that fold_min_le [of q ps a] fold_min_le_init [of ps a] unfolding p by auto
  ultimately show ?thesis using Cons by blast
qed

lemma record_removal_eval:
  assumes "worst live = Inr p"
  shows "record_removal live acc =
     Inr (acc\<lparr>logX := logX acc - 1 / real (length live),
              logZ := logaddexp (logZ acc)
                        (Fin (logX acc - (logX acc - 1 / real (length live)) + logl p)),
              dead := dead acc @
                [\<lparr>removed = p, logX_at = logX acc - 1 / real (length live),
                  logw = logX acc - (logX acc - 1 / real (length live)) + logl p\<rparr>]\<rparr>)"
  by (simp add: record_removal_def assms Let_def)

text \<open>
  Claim C1. At the replacement of the worst live point, with \<open>live\<close> the population
  at that time and a running \<open>log Z\<close> that is the logarithm of a number (minus infinity
  for zero): the point removed is a member of the population with the least \<open>logl\<close>;
  \<open>log X\<^sub>i = log X\<^sub>i\<^sub>-\<^sub>1 - 1/N\<close> with \<open>N\<close> the size of \<open>live\<close>; the
  entry appended to the dead points carries \<open>log X\<^sub>i\<close> and
  \<open>log w\<^sub>i = log X\<^sub>i\<^sub>-\<^sub>1 - log X\<^sub>i + logl\<close>; and the new \<open>Z\<close> is the old one
  plus \<open>w\<^sub>i\<close>, that is, the stable log-sum-exp computes the logarithm of the sum.
\<close>

theorem record_removal_update:
  assumes "live \<noteq> []" and "logZ acc = NInf \<or> (\<exists>z. logZ acc = Fin z)"
  shows "\<exists>p acc'. worst live = Inr p \<and> p \<in> set live \<and> (\<forall>q\<in>set live. logl p \<le> logl q) \<and>
           record_removal live acc = Inr acc' \<and>
           logX acc' = logX acc - 1 / real (length live) \<and>
           dead acc' = dead acc @
             [\<lparr>removed = p, logX_at = logX acc',
               logw = logX acc - logX acc' + logl p\<rparr>] \<and>
           np_exp (logZ acc') =
             np_add (np_exp (logZ acc)) (Fin (exp (logX acc - logX acc' + logl p))) \<and>
           (logZ acc' = NInf \<or> (\<exists>z. logZ acc' = Fin z))"
proof -
  obtain p where p: "worst live = Inr p" using worst_nonempty [OF assms(1)] by blast
  let ?acc' = "acc\<lparr>logX := logX acc - 1 / real (length live),
                   logZ := logaddexp (logZ acc)
                     (Fin (logX acc - (logX acc - 1 / real (length live)) + logl p)),
                   dead := dead acc @
                     [\<lparr>removed = p, logX_at = logX acc - 1 / real (length live),
                       logw = logX acc - (logX acc - 1 / real (length live)) + logl p\<rparr>]\<rparr>"
  have r: "record_removal live acc = Inr ?acc'"
    by (rule record_removal_eval [OF p])
  have z: "np_exp (logZ ?acc') =
      np_add (np_exp (logZ acc)) (Fin (exp (logX acc - logX ?acc' + logl p)))"
    using np_exp_logaddexp [OF assms(2)] by simp
  have f: "logZ ?acc' = NInf \<or> (\<exists>z. logZ ?acc' = Fin z)"
    using logaddexp_stays_log [OF assms(2)] by simp
  show ?thesis
    using p worst_is_min [OF p] r z f by (intro exI [of _ p] exI [of _ ?acc']) simp
qed

theorem record_removal_update_witness:
  "[\<lparr>u = [1 / 5], theta = [Fin 480], logl = - 3, pid = 0\<rparr>,
    \<lparr>u = [3 / 5], theta = [Fin 640], logl = - 1, pid = 1\<rparr>] \<noteq> [] \<and>
   logZ \<lparr>logX = 0, logZ = NInf, dead = []\<rparr> = NInf \<and>
   (\<exists>acc'. record_removal
       [\<lparr>u = [1 / 5], theta = [Fin 480], logl = - 3, pid = 0\<rparr>,
        \<lparr>u = [3 / 5], theta = [Fin 640], logl = - 1, pid = 1\<rparr>]
       \<lparr>logX = 0, logZ = NInf, dead = []\<rparr> = Inr acc' \<and>
      logX acc' = - (1 / 2) \<and>
      dead acc' = [\<lparr>removed = \<lparr>u = [1 / 5], theta = [Fin 480], logl = - 3, pid = 0\<rparr>,
                     logX_at = - (1 / 2), logw = - (5 / 2)\<rparr>] \<and>
      np_exp (logZ acc') = Fin (exp (- (5 / 2))))"
  using record_removal_update
    [of "[\<lparr>u = [1 / 5], theta = [Fin 480], logl = - 3, pid = 0\<rparr>,
          \<lparr>u = [3 / 5], theta = [Fin 640], logl = - 1, pid = 1\<rparr>]"
        "\<lparr>logX = 0, logZ = NInf, dead = []\<rparr>"]
  by (auto simp add: worst_def)

text \<open>
  Along a run the same holds removal by removal, each with the size the live population has
  then.
\<close>

lemma replay_closed_form:
  assumes "\<forall>live\<in>set history. live \<noteq> []" and "logZ acc = NInf \<or> (\<exists>z. logZ acc = Fin z)"
  shows "\<exists>acc' new. replay history acc = Inr acc' \<and>
           logX acc' = logX acc - (\<Sum>live\<leftarrow>history. 1 / real (length live)) \<and>
           dead acc' = dead acc @ new \<and> length new = length history \<and>
           np_exp (logZ acc') = np_add (np_exp (logZ acc)) (Fin (\<Sum>d\<leftarrow>new. exp (logw d))) \<and>
           (logZ acc' = NInf \<or> (\<exists>z. logZ acc' = Fin z))"
  using assms
proof (induction history arbitrary: acc)
  case Nil
  then show ?case by (cases "logZ acc") auto
next
  case (Cons live history)
  from Cons.prems have ne: "live \<noteq> []" by simp
  obtain p where p: "worst live = Inr p" using worst_nonempty [OF ne] by blast
  define w where "w = logX acc - (logX acc - 1 / real (length live)) + logl p"
  define d where "d = \<lparr>removed = p, logX_at = logX acc - 1 / real (length live), logw = w\<rparr>"
  define a1 where "a1 = acc\<lparr>logX := logX acc - 1 / real (length live),
      logZ := logaddexp (logZ acc) (Fin w), dead := dead acc @ [d]\<rparr>"
  have r1: "record_removal live acc = Inr a1"
    unfolding a1_def d_def w_def by (rule record_removal_eval [OF p])
  have f1: "logZ a1 = NInf \<or> (\<exists>z. logZ a1 = Fin z)"
    using logaddexp_stays_log [OF Cons.prems(2)] by (simp add: a1_def)
  have z1: "np_exp (logZ a1) = np_add (np_exp (logZ acc)) (Fin (exp w))"
    using np_exp_logaddexp [OF Cons.prems(2)] by (simp add: a1_def)
  from Cons.prems have "\<forall>live\<in>set history. live \<noteq> []" by simp
  from Cons.IH [OF this f1]
  obtain a2 new where a2: "replay history a1 = Inr a2"
    and x2: "logX a2 = logX a1 - (\<Sum>live\<leftarrow>history. 1 / real (length live))"
    and d2: "dead a2 = dead a1 @ new" and l2: "length new = length history"
    and z2: "np_exp (logZ a2) = np_add (np_exp (logZ a1)) (Fin (\<Sum>d\<leftarrow>new. exp (logw d)))"
    and f2: "logZ a2 = NInf \<or> (\<exists>z. logZ a2 = Fin z)"
    by blast
  obtain e where e: "np_exp (logZ acc) = Fin e" using np_exp_of_log [OF Cons.prems(2)] by blast
  have "replay (live # history) acc = Inr a2" using r1 a2 by simp
  moreover have "logX a2 = logX acc - (\<Sum>live\<leftarrow>live # history. 1 / real (length live))"
    using x2 by (simp add: a1_def)
  moreover have "dead a2 = dead acc @ (d # new)" using d2 by (simp add: a1_def)
  moreover have "length (d # new) = length (live # history)" using l2 by simp
  moreover have "np_exp (logZ a2) =
      np_add (np_exp (logZ acc)) (Fin (\<Sum>d\<leftarrow>d # new. exp (logw d)))"
    using z1 z2 e by (simp add: d_def)
  ultimately show ?case using f2 by blast
qed

section \<open>Properties of the region proposer\<close>

lemma generator_after_shift:
  "generator_after P region g (Suc k) =
   generator_after P region (snd (draw_candidate P region g)) k"
  by (induction k) simp_all

lemma candidate_at_shift:
  "candidate_at P region g (Suc k) = candidate_at P region (snd (draw_candidate P region g)) k"
  unfolding candidate_at_def by (simp only: generator_after_shift)

lemma all_rejected_Suc:
  "all_rejected P logl_of region L_min g (Suc n) \<longleftrightarrow>
   \<not> np_less L_min (Fin (logl_of (fst (draw_candidate P region g)))) \<and>
   all_rejected P logl_of region L_min (snd (draw_candidate P region g)) n"
proof -
  let ?rej = "\<lambda>g k. \<not> np_less L_min (Fin (logl_of (candidate_at P region g k)))"
  let ?g1 = "snd (draw_candidate P region g)"
  have c0: "candidate_at P region g 0 = fst (draw_candidate P region g)"
    by (simp add: candidate_at_def)
  have "(\<forall>k<Suc n. ?rej g k) \<longleftrightarrow> ?rej g 0 \<and> (\<forall>k<n. ?rej g (Suc k))"
    by (metis less_Suc_eq_0_disj Suc_less_eq zero_less_Suc)
  also have "\<dots> \<longleftrightarrow> ?rej g 0 \<and> (\<forall>k<n. ?rej ?g1 k)"
    by (simp only: candidate_at_shift)
  finally show ?thesis
    unfolding all_rejected_def c0 .
qed

lemma rejection_loop_result:
  "rejected \<le> max_rejections P \<Longrightarrow>
   (case rejection_loop P logl_of region L_min g rejected of
      Accepted cand l g' n \<Rightarrow>
        rejected \<le> n \<and> n < max_rejections P \<and> l = logl_of cand \<and> np_less L_min (Fin l) \<and>
        cand = candidate_at P region g (n - rejected) \<and>
        g' = generator_after P region g (Suc (n - rejected)) \<and>
        all_rejected P logl_of region L_min g (n - rejected)
    | BudgetExhausted g' n \<Rightarrow>
        n = max_rejections P \<and>
        g' = generator_after P region g (n - rejected) \<and>
        all_rejected P logl_of region L_min g (n - rejected)
    | DegenerateRegion \<Rightarrow> False)"
proof (induction P logl_of region L_min g rejected rule: rejection_loop.induct)
  case (1 P logl_of region L_min g rejected)
  show ?case
  proof (cases "max_rejections P \<le> rejected")
    case True
    with "1.prems" show ?thesis by (simp add: rejection_loop.simps all_rejected_def)
  next
    case False
    obtain cand g1 where d: "draw_candidate P region g = (cand, g1)"
      by (cases "draw_candidate P region g")
    show ?thesis
    proof (cases "np_less L_min (Fin (logl_of cand))")
      case True
      with False d show ?thesis
        by (simp add: rejection_loop.simps all_rejected_def candidate_at_def)
    next
      case rej: False
      have le: "Suc rejected \<le> max_rejections P" using False by simp
      have unfold: "rejection_loop P logl_of region L_min g rejected =
          rejection_loop P logl_of region L_min g1 (Suc rejected)"
        using False d rej by (subst rejection_loop.simps) simp
      note IH = "1.IH" [OF False d [symmetric] rej le]
      show ?thesis
      proof (cases "rejection_loop P logl_of region L_min g1 (Suc rejected)")
        case (Accepted c l g' n)
        have n1: "Suc rejected \<le> n" using IH by (auto simp add: Accepted)
        have n2: "n < max_rejections P" using IH by (auto simp add: Accepted)
        have n3: "l = logl_of c" using IH by (auto simp add: Accepted)
        have n4: "np_less L_min (Fin l)" using IH by (auto simp add: Accepted)
        have c: "c = candidate_at P region g1 (n - Suc rejected)"
          using IH by (auto simp add: Accepted)
        have g': "g' = generator_after P region g1 (Suc (n - Suc rejected))"
          using IH by (auto simp add: Accepted)
        have ar: "all_rejected P logl_of region L_min g1 (n - Suc rejected)"
          using IH by (auto simp add: Accepted)
        from n1 have s: "n - rejected = Suc (n - Suc rejected)" by simp
        have c': "c = candidate_at P region g (n - rejected)"
          unfolding s candidate_at_shift using c d by simp
        have g'': "g' = generator_after P region g (Suc (n - rejected))"
          unfolding s generator_after_shift [of P region g "Suc (n - Suc rejected)"]
          using g' d by simp
        have ar': "all_rejected P logl_of region L_min g (n - rejected)"
          unfolding s all_rejected_Suc using ar rej d by simp
        from n1 have n1': "rejected \<le> n" by simp
        show ?thesis
          unfolding unfold Accepted using n1' n2 n3 n4 c' g'' ar' by simp
      next
        case (BudgetExhausted g' n)
        have n: "n = max_rejections P" using IH by (auto simp add: BudgetExhausted)
        have g': "g' = generator_after P region g1 (n - Suc rejected)"
          using IH by (auto simp add: BudgetExhausted)
        have ar: "all_rejected P logl_of region L_min g1 (n - Suc rejected)"
          using IH by (auto simp add: BudgetExhausted)
        from n le have s: "n - rejected = Suc (n - Suc rejected)" by simp
        have g'': "g' = generator_after P region g (n - rejected)"
          unfolding s generator_after_shift [of P region g "n - Suc rejected"]
          using g' d by simp
        have ar': "all_rejected P logl_of region L_min g (n - rejected)"
          unfolding s all_rejected_Suc using ar rej d by simp
        show ?thesis
          unfolding unfold BudgetExhausted using n g'' ar' by simp
      next
        case DegenerateRegion
        with IH show ?thesis by simp
      qed
    qed
  qed
qed

lemma rejection_loop_all_rejected:
  "\<forall>cand. \<not> np_less L_min (Fin (logl_of cand)) \<Longrightarrow> rejected \<le> max_rejections P \<Longrightarrow>
    \<exists>g'. rejection_loop P logl_of region L_min g rejected = BudgetExhausted g' (max_rejections P)"
proof (induction P logl_of region L_min g rejected rule: rejection_loop.induct)
  case (1 P logl_of region L_min g rejected)
  show ?case
  proof (cases "max_rejections P \<le> rejected")
    case True
    with "1.prems" show ?thesis by (simp add: rejection_loop.simps)
  next
    case False
    obtain cand g' where d: "draw_candidate P region g = (cand, g')"
      by (cases "draw_candidate P region g")
    have rej: "\<not> np_less L_min (Fin (logl_of cand))" using "1.prems"(1) by blast
    have "Suc rejected \<le> max_rejections P" using False by simp
    from "1.IH" [OF False d [symmetric] rej "1.prems"(1) this]
    show ?thesis using False d rej
      by (subst rejection_loop.simps) auto
  qed
qed

text \<open>
  Claim C7. The proposer is a total function: its loop is defined by recursion on the
  number of rejections left in the budget. For every proposer, live population, threshold
  and generator state it returns one of three results. An accepted candidate has a
  log-likelihood above \<open>L_min\<close>; it is the first such candidate of the sequence of
  draws, all draws before it were rejected, and they were fewer than the budget. The
  failure signal comes after exactly as many draws as the budget, all of them rejected.
  A region whose volume is at or under the degeneracy threshold is reported as degenerate
  with no candidate drawn. And when no candidate can exceed \<open>L_min\<close> the loop does not
  run on: it returns the failure signal.
\<close>

theorem propose_terminates:
  "(case propose P logl_of live L_min g of
      Accepted cand l g' n \<Rightarrow>
        n < max_rejections P \<and> l = logl_of cand \<and> np_less L_min (Fin l) \<and>
        cand = candidate_at P (fit_region P live) g n \<and>
        g' = generator_after P (fit_region P live) g (Suc n) \<and>
        all_rejected P logl_of (fit_region P live) L_min g n \<and>
        min_volume P < region_volume P (fit_region P live)
    | BudgetExhausted g' n \<Rightarrow>
        n = max_rejections P \<and>
        g' = generator_after P (fit_region P live) g n \<and>
        all_rejected P logl_of (fit_region P live) L_min g n \<and>
        min_volume P < region_volume P (fit_region P live)
    | DegenerateRegion \<Rightarrow> region_volume P (fit_region P live) \<le> min_volume P) \<and>
   (region_volume P (fit_region P live) \<le> min_volume P \<longrightarrow>
      propose P logl_of live L_min g = DegenerateRegion) \<and>
   (min_volume P < region_volume P (fit_region P live) \<and>
    (\<forall>cand. \<not> np_less L_min (Fin (logl_of cand))) \<longrightarrow>
      (\<exists>g'. propose P logl_of live L_min g = BudgetExhausted g' (max_rejections P)))"
proof (cases "region_volume P (fit_region P live) \<le> min_volume P")
  case True
  then show ?thesis by (simp add: propose_def Let_def)
next
  case False
  have p: "propose P logl_of live L_min g = rejection_loop P logl_of (fit_region P live) L_min g 0"
    using False by (simp add: propose_def Let_def)
  have a: "case propose P logl_of live L_min g of
      Accepted cand l g' n \<Rightarrow>
        n < max_rejections P \<and> l = logl_of cand \<and> np_less L_min (Fin l) \<and>
        cand = candidate_at P (fit_region P live) g n \<and>
        g' = generator_after P (fit_region P live) g (Suc n) \<and>
        all_rejected P logl_of (fit_region P live) L_min g n \<and>
        min_volume P < region_volume P (fit_region P live)
    | BudgetExhausted g' n \<Rightarrow>
        n = max_rejections P \<and>
        g' = generator_after P (fit_region P live) g n \<and>
        all_rejected P logl_of (fit_region P live) L_min g n \<and>
        min_volume P < region_volume P (fit_region P live)
    | DegenerateRegion \<Rightarrow> region_volume P (fit_region P live) \<le> min_volume P"
    using rejection_loop_result [where rejected = 0 and P = P and logl_of = logl_of
        and region = "fit_region P live" and L_min = L_min and g = g] False
    unfolding p by (auto split: proposal.splits)
  have b: "\<exists>g'. propose P logl_of live L_min g = BudgetExhausted g' (max_rejections P)"
    if "\<forall>cand. \<not> np_less L_min (Fin (logl_of cand))"
    using rejection_loop_all_rejected [OF that, where rejected = 0 and P = P
        and region = "fit_region P live" and g = g]
    unfolding p by simp
  show ?thesis using a b False by blast
qed

text \<open>The interval proposer on two live points: one rejection, then an acceptance.\<close>

lemma propose_example_accepted:
  "propose interval_proposer (\<lambda>c. - \<bar>hd c - 8 / 25\<bar>)
     [\<lparr>u = [1 / 5], theta = [Fin 480], logl = - 3, pid = 0\<rparr>,
      \<lparr>u = [3 / 5], theta = [Fin 640], logl = - 1, pid = 1\<rparr>] (Fin (- (1 / 20))) 0 =
   Accepted [8 / 25] 0 2 1"
  by (simp add: propose_def interval_proposer_def rejection_loop.simps Let_def)

text \<open>A likelihood that never exceeds the threshold: three rejections, then the failure.\<close>

lemma propose_example_exhausted:
  "propose interval_proposer (\<lambda>c. - 5)
     [\<lparr>u = [1 / 5], theta = [Fin 480], logl = - 3, pid = 0\<rparr>,
      \<lparr>u = [3 / 5], theta = [Fin 640], logl = - 1, pid = 1\<rparr>] (Fin (- 3)) 0 =
   BudgetExhausted 3 3"
  by (simp add: propose_def interval_proposer_def rejection_loop.simps Let_def)

theorem propose_terminates_witness:
  "region_volume interval_proposer (fit_region interval_proposer
     [\<lparr>u = [1 / 5], theta = [Fin 480], logl = - 3, pid = 0\<rparr>,
      \<lparr>u = [1 / 5], theta = [Fin 480], logl = - 3, pid = 1\<rparr>]) \<le> min_volume interval_proposer \<and>
   propose interval_proposer (\<lambda>c. - 5)
     [\<lparr>u = [1 / 5], theta = [Fin 480], logl = - 3, pid = 0\<rparr>,
      \<lparr>u = [1 / 5], theta = [Fin 480], logl = - 3, pid = 1\<rparr>] (Fin (- 3)) (0::nat) =
     DegenerateRegion \<and>
   min_volume interval_proposer < region_volume interval_proposer (fit_region interval_proposer
     [\<lparr>u = [1 / 5], theta = [Fin 480], logl = - 3, pid = 0\<rparr>,
      \<lparr>u = [3 / 5], theta = [Fin 640], logl = - 1, pid = 1\<rparr>]) \<and>
   (\<forall>cand::real list. \<not> np_less (Fin (- 3)) (Fin (- 5))) \<and>
   (\<exists>g'. propose interval_proposer (\<lambda>c. - 5)
     [\<lparr>u = [1 / 5], theta = [Fin 480], logl = - 3, pid = 0\<rparr>,
      \<lparr>u = [3 / 5], theta = [Fin 640], logl = - 1, pid = 1\<rparr>] (Fin (- 3)) (0::nat) =
     BudgetExhausted g' 3)"
proof -
  have v1: "region_volume interval_proposer (fit_region interval_proposer
     [\<lparr>u = [1 / 5], theta = [Fin 480], logl = - 3, pid = 0\<rparr>,
      \<lparr>u = [1 / 5], theta = [Fin 480], logl = - 3, pid = 1\<rparr>]) \<le> min_volume interval_proposer"
    by (simp add: interval_proposer_def Let_def)
  have v2: "min_volume interval_proposer < region_volume interval_proposer
     (fit_region interval_proposer
     [\<lparr>u = [1 / 5], theta = [Fin 480], logl = - 3, pid = 0\<rparr>,
      \<lparr>u = [3 / 5], theta = [Fin 640], logl = - 1, pid = 1\<rparr>])"
    by (simp add: interval_proposer_def Let_def)
  have m: "max_rejections interval_proposer = 3" by (simp add: interval_proposer_def)
  from propose_terminates [where P = interval_proposer and logl_of = "\<lambda>c. - 5"
     and live = "[\<lparr>u = [1 / 5], theta = [Fin 480], logl = - 3, pid = 0\<rparr>,
       \<lparr>u = [1 / 5], theta = [Fin 480], logl = - 3, pid = 1\<rparr>]"
     and L_min = "Fin (- 3)" and g = 0] v1
  have d: "propose interval_proposer (\<lambda>c. - 5)
     [\<lparr>u = [1 / 5], theta = [Fin 480], logl = - 3, pid = 0\<rparr>,
      \<lparr>u = [1 / 5], theta = [Fin 480], logl = - 3, pid = 1\<rparr>] (Fin (- 3)) (0::nat) =
     DegenerateRegion" by blast
  from propose_terminates [where P = interval_proposer and logl_of = "\<lambda>c. - 5"
     and live = "[\<lparr>u = [1 / 5], theta = [Fin 480], logl = - 3, pid = 0\<rparr>,
       \<lparr>u = [3 / 5], theta = [Fin 640], logl = - 1, pid = 1\<rparr>]"
     and L_min = "Fin (- 3)" and g = 0] v2 m
  have e: "\<exists>g'. propose interval_proposer (\<lambda>c. - 5)
     [\<lparr>u = [1 / 5], theta = [Fin 480], logl = - 3, pid = 0\<rparr>,
      \<lparr>u = [3 / 5], theta = [Fin 640], logl = - 1, pid = 1\<rparr>] (Fin (- 3)) (0::nat) =
     BudgetExhausted g' 3" by simp
  show ?thesis using v1 v2 d e by simp
qed

end
